theory Spec2Isabelle
  imports Complex_Main "HOL-Library.Word"
begin

unbundle bit_operations_syntax

section \<open>JavaScript values used by the live-session component\<close>

text \<open>
  A JavaScript string is a sequence of 16-bit code units. \<open>js\<close> turns an ASCII literal
  into such a string. Numbers are reals. The times of the playback scheduler are read in
  exact arithmetic, the 16-bit PCM conversion below is exact on every finite sample whose
  product with 32768 is finite, and the sequence ids of the transcript are rounded to
  double precision as the addition that computes them does.
\<close>

type_synonym jsString = "16 word list"

definition js :: "string \<Rightarrow> jsString" where
  "js s = map (\<lambda>c. of_nat (of_char c)) s"

text \<open>\<open>if (x)\<close> on a value of type \<open>string | undefined\<close>: the empty string is falsy.\<close>

definition truthy :: "jsString option \<Rightarrow> bool" where
  "truthy x = (case x of None \<Rightarrow> False | Some t \<Rightarrow> t \<noteq> [])"

text \<open>
  \<open>String.prototype.trim\<close>: removes the ECMAScript WhiteSpace and LineTerminator code
  units (TAB, LF, VT, FF, CR, SP, NBSP, the Unicode space separators, LS, PS and BOM) from
  both ends.
\<close>

definition isWhiteSpace :: "16 word \<Rightarrow> bool" where
  "isWhiteSpace c \<longleftrightarrow>
     c \<in> {0x9, 0xA, 0xB, 0xC, 0xD, 0x20, 0xA0, 0x1680, 0x2028, 0x2029, 0x202F, 0x205F,
          0x3000, 0xFEFF}
     \<or> (0x2000 \<le> c \<and> c \<le> 0x200A)"

definition trim :: "jsString \<Rightarrow> jsString" where
  "trim t = rev (dropWhile isWhiteSpace (rev (dropWhile isWhiteSpace t)))"

text \<open>\<open>acc += t\<close> where \<open>t\<close> may be \<open>undefined\<close>, which JavaScript appends as a word.\<close>

definition appendText :: "jsString \<Rightarrow> jsString option \<Rightarrow> jsString" where
  "appendText acc t = acc @ (case t of None \<Rightarrow> js ''undefined'' | Some x \<Rightarrow> x)"

datatype exn = TypeError | FormatError

section \<open>Double-precision rounding\<close>

text \<open>\<open>ilog2 n\<close> is the position of the leading bit of a positive \<open>n\<close>.\<close>

fun ilog2 :: "nat \<Rightarrow> nat" where
  "ilog2 n = (if n < 2 then 0 else Suc (ilog2 (n div 2)))"

declare ilog2.simps [simp del]

text \<open>The binary exponent of a positive real \<open>a\<close>: the \<open>e\<close> with \<open>2^e \<le> a < 2^(e+1)\<close>.\<close>

definition exponent2 :: "real \<Rightarrow> int" where
  "exponent2 a =
     (if 1 \<le> a then int (ilog2 (nat \<lfloor>a\<rfloor>))
      else - int (if \<lceil>1 / a\<rceil> \<le> 1 then 0 else Suc (ilog2 (nat (\<lceil>1 / a\<rceil> - 1)))))"

text \<open>Rounding to the nearest integer, a tie going to the even one.\<close>

definition roundEven :: "real \<Rightarrow> int" where
  "roundEven y =
     (let f = \<lfloor>y\<rfloor>; d = y - real_of_int f
      in if d < 1 / 2 then f else if 1 / 2 < d then f + 1 else if even f then f else f + 1)"

text \<open>
  The double nearest to a real: 53 significant bits, so the spacing in the binade of
  exponent \<open>e\<close> is \<open>2^(e - 52)\<close>, and \<open>2^(-1074)\<close> below \<open>2^(-1022)\<close>. Results are
  taken below \<open>2^1024\<close>, where a double is finite.
\<close>

definition binary64 :: "real \<Rightarrow> real" where
  "binary64 x =
     (if x = 0 then 0
      else let u = 2 powi (max (exponent2 \<bar>x\<bar>) (- 1022) - 52)
           in real_of_int (roundEven (x / u)) * u)"

text \<open>\<open>Date.now() + Math.random()\<close> (lines 140 and 143): the sum of two doubles.\<close>

definition turnId :: "int \<Rightarrow> real \<Rightarrow> real" where
  "turnId now rnd = binary64 (real_of_int now + rnd)"

section \<open>PCM conversion\<close>

text \<open>
  Line 64 of LiveApiTab.tsx:
  \<open>new Uint8Array(new Int16Array(inputData.map(x => x * 32768)).buffer)\<close>.
  Storing a number in an \<open>Int16Array\<close> truncates it towards zero and keeps the low 16
  bits; the byte view of the buffer is little-endian.
\<close>

definition jsTruncate :: "real \<Rightarrow> int" where
  "jsTruncate y = (if 0 \<le> y then \<lfloor>y\<rfloor> else \<lceil>y\<rceil>)"

definition toInt16 :: "real \<Rightarrow> 16 word" where
  "toInt16 y = word_of_int (jsTruncate y)"

definition int16Bytes :: "16 word \<Rightarrow> 8 word list" where
  "int16Bytes w = [ucast w, ucast (drop_bit 8 w)]"

definition floatToPcm16 :: "real list \<Rightarrow> 8 word list" where
  "floatToPcm16 samples = concat (map (\<lambda>x. int16Bytes (toInt16 (x * 32768))) samples)"

text \<open>
  Modelled from the spec: the audio buffer that \<open>pcm16ToFloat\<close> returns (utils/audioUtils
  is not among the sources), described by its sample rate and channel count.
\<close>

record audioBuffer =
  buf_sampleRate :: nat
  buf_channelCount :: nat
  buf_samples :: "real list"

text \<open>
  Modelled from the spec: the reading of a byte buffer as little-endian 16-bit samples,
  which is part of \<open>pcm16ToFloat\<close>. A trailing odd byte gives no sample.
\<close>

fun int16LE :: "8 word list \<Rightarrow> 16 word list" where
  "int16LE (lo # hi # rest) = (push_bit 8 (ucast hi) OR ucast lo) # int16LE rest"
| "int16LE _ = []"

text \<open>
  Modelled from the spec: \<open>pcm16ToFloat\<close> (\<open>decodeAudioData\<close> of utils/audioUtils, which
  is not among the sources). It reads the bytes as little-endian signed 16-bit samples,
  divides each by 32768 and packs them into a buffer described by sample rate and channel
  count; it fails with \<open>FormatError\<close> when the byte length is not a multiple of two bytes
  per channel.
\<close>

definition pcm16ToFloat :: "8 word list \<Rightarrow> nat \<Rightarrow> nat \<Rightarrow> exn + audioBuffer" where
  "pcm16ToFloat bytes sampleRate channelCount =
     (if \<not> (2 * channelCount) dvd length bytes then Inl FormatError
      else Inr \<lparr>buf_sampleRate = sampleRate, buf_channelCount = channelCount,
                buf_samples = map (\<lambda>w. real_of_int (sint w) / 32768) (int16LE bytes)\<rparr>)"

section \<open>State of the LiveApiTab component\<close>

datatype ConversationStatus = Idle | Connecting | Connected | Error | Stopped

datatype speaker = User | Model

record Transcription =
  t_id :: real
  t_speaker :: speaker
  t_text :: jsString

text \<open>
  A playback unit: the \<open>AudioBufferSourceNode\<close> created for one audio payload. Each node
  is a fresh object; \<open>node_id\<close> stands for its identity in the \<open>outputSources\<close> set.
\<close>

record sourceNode =
  node_id :: nat
  startAt :: real
  buffer_duration :: real

text \<open>Calls into the browser and the remote session, in the order they happen.\<close>

datatype effect =
    GetUserMedia
  | LiveConnect
  | SendRealtimeInput "8 word list"
  | SessionClose
  | TracksStop
  | ProcessorDisconnect
  | InputContextClose
  | OutputContextClose
  | SourceStart nat real
  | SourceStop nat

text \<open>
  A promise returned by \<open>ai.live.connect\<close>: whether it has settled, and the session
  calls of the \<open>then\<close> callbacks attached to it while it was pending, which run in this
  order once it is fulfilled and never if it is rejected.
\<close>

datatype promiseState = PromisePending | PromiseFulfilled | PromiseRejected

record livePromise =
  settled :: promiseState
  reactions :: "effect list"

text \<open>
  The \<open>useState\<close> cells and the refs of the component. A ref to an opaque browser object
  is a flag: \<open>True\<close> when \<open>.current\<close> is not null. \<open>sessionPromiseRef\<close> holds the
  position of its promise in \<open>promises\<close>, the promises made so far. \<open>outputSources\<close> is
  the set of active nodes in insertion order, which is the order a JavaScript \<open>Set\<close>
  iterates in.
\<close>

record state =
  status :: ConversationStatus
  transcriptions :: "Transcription list"
  error :: "jsString option"
  sessionPromiseRef :: "nat option"
  promises :: "livePromise list"
  inputAudioContextRef :: bool
  outputAudioContextRef :: bool
  mediaStreamRef :: bool
  scriptProcessorRef :: bool
  outputSources :: "sourceNode list"
  nextSourceId :: nat
  nextStartTime :: real
  currentInputTranscription :: jsString
  currentOutputTranscription :: jsString
  effects :: "effect list"

definition initialState :: state where
  "initialState =
     \<lparr>status = Idle, transcriptions = [], error = None, sessionPromiseRef = None,
      promises = [], inputAudioContextRef = False, outputAudioContextRef = False, mediaStreamRef = False,
      scriptProcessorRef = False, outputSources = [], nextSourceId = 0, nextStartTime = 0,
      currentInputTranscription = [], currentOutputTranscription = [], effects = []\<rparr>"

section \<open>Server messages\<close>

record Part =
  inlineData :: "jsString option"

record Content =
  parts :: "Part list option"

record LiveServerContent =
  modelTurn :: "Content option"
  interrupted :: bool
  inputTranscription :: "jsString option option"
  outputTranscription :: "jsString option option"
  turnComplete :: bool

record LiveServerMessage =
  serverContent :: "LiveServerContent option"

text \<open>
  What the handler reads from outside while it processes one message: the clock of the
  output audio context, the outcome of \<open>decodeAudioData(decode(base64Audio), ctx, 24000, 1)\<close>
  (utils/audioUtils is not among the sources: the duration in seconds of the buffer it
  returns, or the exception it throws), and the values of the two
  \<open>Date.now() + Math.random()\<close> evaluations in the order they are made.
\<close>

record msgEnv =
  currentTime :: real
  decodeAudioData :: "jsString \<Rightarrow> exn + real"
  dateNow1 :: int
  mathRandom1 :: real
  dateNow2 :: int
  mathRandom2 :: real

text \<open>\<open>message.serverContent?.modelTurn?.parts[0]?.inlineData?.data\<close> (line 106).\<close>

definition base64Audio :: "LiveServerMessage \<Rightarrow> exn + jsString option" where
  "base64Audio m =
     (case serverContent m of
        None \<Rightarrow> Inr None
      | Some c \<Rightarrow>
          (case modelTurn c of
             None \<Rightarrow> Inr None
           | Some t \<Rightarrow>
               (case parts t of
                  None \<Rightarrow> Inl TypeError
                | Some [] \<Rightarrow> Inr None
                | Some (p # _) \<Rightarrow> Inr (inlineData p))))"

definition msgInterrupted :: "LiveServerMessage \<Rightarrow> bool" where
  "msgInterrupted m = (case serverContent m of None \<Rightarrow> False | Some c \<Rightarrow> interrupted c)"

definition msgInputTranscription :: "LiveServerMessage \<Rightarrow> jsString option option" where
  "msgInputTranscription m =
     (case serverContent m of None \<Rightarrow> None | Some c \<Rightarrow> inputTranscription c)"

definition msgOutputTranscription :: "LiveServerMessage \<Rightarrow> jsString option option" where
  "msgOutputTranscription m =
     (case serverContent m of None \<Rightarrow> None | Some c \<Rightarrow> outputTranscription c)"

definition msgTurnComplete :: "LiveServerMessage \<Rightarrow> bool" where
  "msgTurnComplete m = (case serverContent m of None \<Rightarrow> False | Some c \<Rightarrow> turnComplete c)"

section \<open>handleServerMessage\<close>

text \<open>
  Lines 107 to 117, the enqueue of one audio payload. The cursor is raised to the clock
  before the payload is decoded, so a decoding failure leaves the raised cursor behind and
  abandons the rest of the handler.
\<close>

definition playAudio :: "msgEnv \<Rightarrow> jsString option \<Rightarrow> state \<Rightarrow> state \<times> exn option" where
  "playAudio env audio s =
     (case audio of
        None \<Rightarrow> (s, None)
      | Some b \<Rightarrow>
          if b \<noteq> [] \<and> outputAudioContextRef s then
            (let s1 = s\<lparr>nextStartTime := max (nextStartTime s) (currentTime env)\<rparr> in
               case decodeAudioData env b of
                 Inl e \<Rightarrow> (s1, Some e)
               | Inr d \<Rightarrow>
                   (s1\<lparr>effects := effects s1 @ [SourceStart (nextSourceId s1) (nextStartTime s1)],
                       nextStartTime := nextStartTime s1 + d,
                       outputSources := outputSources s1 @
                         [\<lparr>node_id = nextSourceId s1, startAt = nextStartTime s1,
                           buffer_duration = d\<rparr>],
                       nextSourceId := Suc (nextSourceId s1)\<rparr>, None))
          else (s, None))"

text \<open>Lines 119 to 125, the interrupt.\<close>

definition interruptAudio :: "state \<Rightarrow> state" where
  "interruptAudio s =
     s\<lparr>effects := effects s @ map (\<lambda>n. SourceStop (node_id n)) (outputSources s),
       outputSources := [],
       nextStartTime := 0\<rparr>"

text \<open>Lines 127 to 132, the two accumulators.\<close>

definition accumulate :: "LiveServerMessage \<Rightarrow> state \<Rightarrow> state" where
  "accumulate m s =
     (let s1 = (case msgInputTranscription m of
                  None \<Rightarrow> s
                | Some t \<Rightarrow>
                    s\<lparr>currentInputTranscription := appendText (currentInputTranscription s) t\<rparr>)
      in case msgOutputTranscription m of
           None \<Rightarrow> s1
         | Some t \<Rightarrow>
             s1\<lparr>currentOutputTranscription := appendText (currentOutputTranscription s1) t\<rparr>)"

text \<open>
  Lines 134 to 148, the flush on a turn-complete signal. The first \<open>push\<close> that runs
  takes the first \<open>Date.now() + Math.random()\<close>, the second one the second.
\<close>

definition userTurns :: "msgEnv \<Rightarrow> jsString \<Rightarrow> Transcription list" where
  "userTurns env fullInput =
     (if fullInput \<noteq> [] then
        [\<lparr>t_id = turnId (dateNow1 env) (mathRandom1 env), t_speaker = User,
          t_text = fullInput\<rparr>]
      else [])"

definition modelTurns :: "msgEnv \<Rightarrow> jsString \<Rightarrow> jsString \<Rightarrow> Transcription list" where
  "modelTurns env fullInput fullOutput =
     (if fullOutput \<noteq> [] then
        [\<lparr>t_id = (if fullInput \<noteq> [] then turnId (dateNow2 env) (mathRandom2 env)
                  else turnId (dateNow1 env) (mathRandom1 env)),
          t_speaker = Model, t_text = fullOutput\<rparr>]
      else [])"

definition flushTurn :: "msgEnv \<Rightarrow> state \<Rightarrow> state" where
  "flushTurn env s =
     (let fullInput = trim (currentInputTranscription s);
          fullOutput = trim (currentOutputTranscription s)
      in s\<lparr>transcriptions :=
             transcriptions s @ userTurns env fullInput @ modelTurns env fullInput fullOutput,
           currentInputTranscription := [],
           currentOutputTranscription := []\<rparr>)"

definition handleTranscriptions :: "msgEnv \<Rightarrow> LiveServerMessage \<Rightarrow> state \<Rightarrow> state" where
  "handleTranscriptions env m s =
     (let s1 = accumulate m s in if msgTurnComplete m then flushTurn env s1 else s1)"

text \<open>
  The whole handler, lines 104 to 150. It returns the state it leaves and the exception
  that ended it early, if any. One message is handled without another one in between
  (the spec, section 5: inbound messages are processed strictly in arrival order).
\<close>

definition handleServerMessage ::
  "msgEnv \<Rightarrow> LiveServerMessage \<Rightarrow> state \<Rightarrow> state \<times> exn option" where
  "handleServerMessage env m s =
     (case base64Audio m of
        Inl e \<Rightarrow> (s, Some e)
      | Inr audio \<Rightarrow>
          (case playAudio env audio s of
             (s1, Some e) \<Rightarrow> (s1, Some e)
           | (s1, None) \<Rightarrow>
               (handleTranscriptions env m
                  (if msgInterrupted m then interruptAudio s1 else s1), None)))"

text \<open>The \<open>ended\<close> listener of a source node (line 113).\<close>

definition sourceEnded :: "nat \<Rightarrow> state \<Rightarrow> state" where
  "sourceEnded i s = s\<lparr>outputSources := filter (\<lambda>n. node_id n \<noteq> i) (outputSources s)\<rparr>"

section \<open>Starting and stopping\<close>

text \<open>
  \<open>sessionPromiseRef.current?.then((session) => call)\<close> (lines 67 and 153). Without a
  promise nothing happens. On a pending promise the call is queued behind the earlier
  ones. On a fulfilled promise the call runs as soon as the current handler has returned:
  \<open>sessionThenNow\<close> is that call, which the handler's model puts at the end of what it
  logs. On a rejected promise the call never runs.
\<close>

definition sessionThen :: "effect \<Rightarrow> state \<Rightarrow> state" where
  "sessionThen call s =
     (case sessionPromiseRef s of
        None \<Rightarrow> s
      | Some i \<Rightarrow>
          if i < length (promises s) \<and> settled (promises s ! i) = PromisePending
          then s\<lparr>promises := (promises s)
                   [i := (promises s ! i)\<lparr>reactions := reactions (promises s ! i) @ [call]\<rparr>]\<rparr>
          else s)"

definition sessionThenNow :: "effect \<Rightarrow> state \<Rightarrow> effect list" where
  "sessionThenNow call s =
     (case sessionPromiseRef s of
        None \<Rightarrow> []
      | Some i \<Rightarrow>
          if i < length (promises s) \<and> settled (promises s ! i) = PromiseFulfilled then [call]
          else [])"

text \<open>
  Lines 152 to 166. Each optional call happens when its ref is not null. The session is
  not closed by the handler itself: line 153 attaches \<open>session.close()\<close> to the promise,
  so the close comes after the rest of the teardown, or later when the promise is
  fulfilled, or never.
\<close>

definition handleStop :: "state \<Rightarrow> state" where
  "handleStop s =
     (sessionThen SessionClose s)
       \<lparr>effects := effects s
          @ (if mediaStreamRef s then [TracksStop] else [])
          @ (if scriptProcessorRef s then [ProcessorDisconnect] else [])
          @ (if inputAudioContextRef s then [InputContextClose] else [])
          @ (if outputAudioContextRef s then [OutputContextClose] else [])
          @ sessionThenNow SessionClose s,
        sessionPromiseRef := None,
        mediaStreamRef := False,
        scriptProcessorRef := False,
        status := Stopped\<rparr>"

text \<open>
  Lines 36 to 44, \<open>handleStart\<close> up to its \<open>await\<close>. The flag says whether the
  handler went on to request the microphone.
\<close>

definition handleStart :: "jsString option \<Rightarrow> state \<Rightarrow> state \<times> bool" where
  "handleStart apiKey s =
     (if \<not> truthy apiKey then
        (s\<lparr>error := Some (js ''API key is not configured.'')\<rparr>, False)
      else
        (s\<lparr>transcriptions := [], status := Connecting, error := None,
            effects := effects s @ [GetUserMedia]\<rparr>, True))"

text \<open>
  Lines 46 to 101, the rest of \<open>handleStart\<close> once \<open>getUserMedia\<close> has settled: with a
  stream, or with a rejection that is an \<open>Error\<close> with a message or some other value.
  The constructors of the two audio contexts and of the client are taken not to throw.
  The continuation does not look at the status: it runs the same after a stop.
\<close>

datatype mediaOutcome = Granted | Rejected "jsString option"

definition handleStartResume :: "mediaOutcome \<Rightarrow> state \<Rightarrow> state" where
  "handleStartResume outcome s =
     (case outcome of
        Granted \<Rightarrow>
          s\<lparr>mediaStreamRef := True, inputAudioContextRef := True,
            outputAudioContextRef := True,
            sessionPromiseRef := Some (length (promises s)),
            promises := promises s @ [\<lparr>settled = PromisePending, reactions = []\<rparr>],
            effects := effects s @ [LiveConnect]\<rparr>
      | Rejected msg \<Rightarrow>
          s\<lparr>error := Some (case msg of
                             Some t \<Rightarrow> js ''Failed to get microphone: '' @ t
                           | None \<Rightarrow> js ''An unknown error occurred.''),
            status := Error\<rparr>)"

text \<open>
  The session callbacks, lines 56 to 86. The log entry of \<open>onaudioprocess\<close> keeps the PCM
  bytes that go into the base64 \<open>encode\<close> of utils/audioUtils, which is not among the
  sources.
\<close>

definition onopen :: "state \<Rightarrow> state" where
  "onopen s = s\<lparr>status := Connected, scriptProcessorRef := True\<rparr>"

definition onaudioprocess :: "real list \<Rightarrow> state \<Rightarrow> state" where
  "onaudioprocess inputData s =
     (sessionThen (SendRealtimeInput (floatToPcm16 inputData)) s)
       \<lparr>effects := effects s @ sessionThenNow (SendRealtimeInput (floatToPcm16 inputData)) s\<rparr>"

text \<open>
  The promise at position \<open>i\<close> settles. When it is fulfilled the queued calls run in
  order; when it is rejected they are dropped.
\<close>

definition connectFulfilled :: "nat \<Rightarrow> state \<Rightarrow> state" where
  "connectFulfilled i s =
     (if i < length (promises s) \<and> settled (promises s ! i) = PromisePending
      then s\<lparr>promises := (promises s)[i := \<lparr>settled = PromiseFulfilled, reactions = []\<rparr>],
             effects := effects s @ reactions (promises s ! i)\<rparr>
      else s)"

definition connectRejected :: "nat \<Rightarrow> state \<Rightarrow> state" where
  "connectRejected i s =
     (if i < length (promises s) \<and> settled (promises s ! i) = PromisePending
      then s\<lparr>promises := (promises s)[i := \<lparr>settled = PromiseRejected, reactions = []\<rparr>]\<rparr>
      else s)"

definition onerror :: "jsString \<Rightarrow> state \<Rightarrow> state" where
  "onerror message s =
     handleStop (s\<lparr>error := Some (js ''Connection error: '' @ message), status := Error\<rparr>)"

definition onclose :: "state \<Rightarrow> state" where
  "onclose s = s\<lparr>status := Stopped\<rparr>"

text \<open>Lines 168 and 179: the button stops an active conversation and starts otherwise.\<close>

definition isConversationActive :: "state \<Rightarrow> bool" where
  "isConversationActive s \<longleftrightarrow> status s = Connecting \<or> status s = Connected"

definition onClick :: "jsString option \<Rightarrow> state \<Rightarrow> state \<times> bool" where
  "onClick apiKey s = (if isConversationActive s then (handleStop s, False) else handleStart apiKey s)"

text \<open>Everything that can happen to the component, as one step function.\<close>

datatype event =
    Click "jsString option"
  | MediaSettled mediaOutcome
  | SessionOpened
  | SessionMessage msgEnv LiveServerMessage
  | SessionError jsString
  | SessionClosed
  | AudioProcess "real list"
  | SourceEnded nat
  | ConnectFulfilled nat
  | ConnectRejected nat

fun step :: "event \<Rightarrow> state \<Rightarrow> state" where
  "step (Click apiKey) s = fst (onClick apiKey s)"
| "step (MediaSettled outcome) s = handleStartResume outcome s"
| "step SessionOpened s = onopen s"
| "step (SessionMessage env m) s = fst (handleServerMessage env m s)"
| "step (SessionError message) s = onerror message s"
| "step SessionClosed s = onclose s"
| "step (AudioProcess inputData) s = onaudioprocess inputData s"
| "step (SourceEnded i) s = sourceEnded i s"
| "step (ConnectFulfilled i) s = connectFulfilled i s"
| "step (ConnectRejected i) s = connectRejected i s"

section \<open>States and messages used as concrete inputs\<close>

definition connectedState :: state where
  "connectedState =
     initialState\<lparr>status := Connected, sessionPromiseRef := Some 0,
       promises := [\<lparr>settled = PromiseFulfilled, reactions = []\<rparr>], inputAudioContextRef := True,
       outputAudioContextRef := True, mediaStreamRef := True, scriptProcessorRef := True\<rparr>"

definition busyState :: state where
  "busyState =
     connectedState\<lparr>outputSources := [\<lparr>node_id = 0, startAt = 3, buffer_duration = 2\<rparr>],
       nextSourceId := 1, nextStartTime := 5\<rparr>"

definition playbackEnv :: "real \<Rightarrow> real \<Rightarrow> msgEnv" where
  "playbackEnv t d =
     \<lparr>currentTime = t, decodeAudioData = (\<lambda>b. Inr d), dateNow1 = 0, mathRandom1 = 0,
      dateNow2 = 0, mathRandom2 = 0\<rparr>"

definition audioMessage :: "jsString \<Rightarrow> LiveServerMessage" where
  "audioMessage b =
     \<lparr>serverContent = Some
        \<lparr>modelTurn = Some \<lparr>parts = Some [\<lparr>inlineData = Some b\<rparr>]\<rparr>, interrupted = False,
         inputTranscription = None, outputTranscription = None, turnComplete = False\<rparr>\<rparr>"

definition interruptMessage :: LiveServerMessage where
  "interruptMessage =
     \<lparr>serverContent = Some
        \<lparr>modelTurn = None, interrupted = True, inputTranscription = None,
         outputTranscription = None, turnComplete = False\<rparr>\<rparr>"

text \<open>An event that reaches the interrupt block: a message with the flag, handled to its end.\<close>

fun interruptHandled :: "event \<Rightarrow> state \<Rightarrow> bool" where
  "interruptHandled (SessionMessage env m) s \<longleftrightarrow>
     msgInterrupted m \<and> snd (handleServerMessage env m s) = None"
| "interruptHandled _ s \<longleftrightarrow> False"

text \<open>Handling a list of events one after the other.\<close>

fun run :: "event list \<Rightarrow> state \<Rightarrow> state" where
  "run [] s = s"
| "run (e # es) s = run es (step e s)"

text \<open>
  Messages that carry one thing only: a partial input transcription, a partial output
  transcription, the turn-complete signal.
\<close>

definition inputFragment :: "jsString \<Rightarrow> LiveServerMessage" where
  "inputFragment f =
     \<lparr>serverContent = Some
        \<lparr>modelTurn = None, interrupted = False, inputTranscription = Some (Some f),
         outputTranscription = None, turnComplete = False\<rparr>\<rparr>"


definition turnCompleteMessage :: LiveServerMessage where
  "turnCompleteMessage =
     \<lparr>serverContent = Some
        \<lparr>modelTurn = None, interrupted = False, inputTranscription = None,
         outputTranscription = None, turnComplete = True\<rparr>\<rparr>"

definition fragmentEvents :: "(msgEnv \<times> jsString) list \<Rightarrow> event list" where
  "fragmentEvents efs = map (\<lambda>(env, f). SessionMessage env (inputFragment f)) efs"

definition turnEnv :: "int \<Rightarrow> real \<Rightarrow> int \<Rightarrow> real \<Rightarrow> msgEnv" where
  "turnEnv n1 r1 n2 r2 =
     \<lparr>currentTime = 0, decodeAudioData = (\<lambda>b. Inl FormatError), dateNow1 = n1,
      mathRandom1 = r1, dateNow2 = n2, mathRandom2 = r2\<rparr>"

definition paddedState :: state where
  "paddedState =
     connectedState\<lparr>currentInputTranscription := js '' hi '',
       currentOutputTranscription := js ''  ''\<rparr>"

definition pendingState :: state where
  "pendingState =
     connectedState\<lparr>currentInputTranscription := js ''a'',
       currentOutputTranscription := js ''b''\<rparr>"


section \<open>What attaching a session call leaves alone\<close>

lemma sessionThen_fields [simp]:
  "status (sessionThen call s) = status s"
  "error (sessionThen call s) = error s"
  "transcriptions (sessionThen call s) = transcriptions s"
  "effects (sessionThen call s) = effects s"
  "nextStartTime (sessionThen call s) = nextStartTime s"
  "outputSources (sessionThen call s) = outputSources s"
  "mediaStreamRef (sessionThen call s) = mediaStreamRef s"
  "scriptProcessorRef (sessionThen call s) = scriptProcessorRef s"
  by (simp_all add: sessionThen_def split: option.splits)

section \<open>Session state after a transport error\<close>

text \<open>
  C1. The claim is that a transport error leaves the session in state \<open>error\<close>. The
  \<open>onerror\<close> callback sets \<open>error\<close> and then calls \<open>handleStop\<close>, whose last statement
  sets \<open>stopped\<close>: whatever the state before, the state afterwards is \<open>stopped\<close>. Teardown
  does run, and the error message is kept.
\<close>

theorem onerror_ends_stopped:
  "status (onerror message s) = Stopped
   \<and> status (onerror message s) \<noteq> Error
   \<and> error (onerror message s) = Some (js ''Connection error: '' @ message)
   \<and> sessionPromiseRef (onerror message s) = None
   \<and> \<not> mediaStreamRef (onerror message s)
   \<and> \<not> scriptProcessorRef (onerror message s)"
  by (simp add: onerror_def handleStop_def)

section \<open>Starting without a credential\<close>

text \<open>
  C9. Without an API key (undefined or empty) \<open>handleStart\<close> returns before anything
  else: the state keeps its status, the error message is set, and neither the microphone
  nor the session is requested, so nothing is tried again. With a key, the status becomes
  \<open>connecting\<close>. From \<open>idle\<close>, a click on the button reaches \<open>connecting\<close> exactly when
  the key is present.
\<close>

theorem start_needs_credential:
  "(\<not> truthy apiKey \<longrightarrow>
      handleStart apiKey s = (s\<lparr>error := Some (js ''API key is not configured.'')\<rparr>, False)
      \<and> status (fst (handleStart apiKey s)) = status s
      \<and> effects (fst (handleStart apiKey s)) = effects s
      \<and> error (fst (handleStart apiKey s)) = Some (js ''API key is not configured.''))
   \<and> (truthy apiKey \<longrightarrow>
        status (fst (handleStart apiKey s)) = Connecting \<and> snd (handleStart apiKey s))
   \<and> (status s = Idle \<longrightarrow>
        status (step (Click apiKey) s) = (if truthy apiKey then Connecting else Idle))"
  by (simp add: handleStart_def onClick_def isConversationActive_def)

theorem start_needs_credential_witness:
  "\<not> truthy None
   \<and> handleStart None initialState
       = (initialState\<lparr>error := Some (js ''API key is not configured.'')\<rparr>, False)
   \<and> status (step (Click None) initialState) = Idle
   \<and> truthy (Some (js ''k''))
   \<and> status (step (Click (Some (js ''k''))) initialState) = Connecting"
proof -
  have a: "\<not> truthy None" by (simp add: truthy_def)
  have b: "truthy (Some (js ''k''))" by (simp add: truthy_def js_def)
  have c: "status initialState = Idle" by (simp add: initialState_def)
  show ?thesis
    using a b c start_needs_credential [of None initialState]
      start_needs_credential [of "Some (js ''k'')" initialState]
    by simp
qed

section \<open>Stopping\<close>

text \<open>
  C3. The claim is that \<open>stop()\<close>, called in a state other than \<open>idle\<close>, moves the state
  to \<open>stopped\<close>, closes the remote session, disconnects the capture processor and
  releases the microphone. A click on Stop while the conversation is connecting and
  \<open>getUserMedia\<close> has not settled finds every ref null: \<open>handleStop\<close> sets \<open>stopped\<close>
  and calls nothing. When the microphone is granted afterwards, the rest of \<open>handleStart\<close>
  keeps the stream and connects, and the session opens: the state is \<open>connected\<close>, the
  stream is held, and no track was stopped and no session closed. From the connected state
  the same click does what the claim says, the session being closed last.
\<close>

theorem stop_while_microphone_pending:
  "status (run [Click (Some (js ''k''))] initialState) = Connecting
   \<and> status (run [Click (Some (js ''k'')), Click (Some (js ''k''))] initialState) = Stopped
   \<and> effects (run [Click (Some (js ''k'')), Click (Some (js ''k''))] initialState) =
       [GetUserMedia]
   \<and> status (run [Click (Some (js ''k'')), Click (Some (js ''k'')), MediaSettled Granted,
        SessionOpened, ConnectFulfilled 0] initialState) = Connected
   \<and> mediaStreamRef (run [Click (Some (js ''k'')), Click (Some (js ''k'')), MediaSettled Granted,
        SessionOpened, ConnectFulfilled 0] initialState)
   \<and> sessionPromiseRef (run [Click (Some (js ''k'')), Click (Some (js ''k'')),
        MediaSettled Granted, SessionOpened, ConnectFulfilled 0] initialState) = Some 0
   \<and> effects (run [Click (Some (js ''k'')), Click (Some (js ''k'')), MediaSettled Granted,
        SessionOpened, ConnectFulfilled 0] initialState) = [GetUserMedia, LiveConnect]
   \<and> status (run [Click (Some (js ''k''))] connectedState) = Stopped
   \<and> effects (run [Click (Some (js ''k''))] connectedState) =
       [TracksStop, ProcessorDisconnect, InputContextClose, OutputContextClose, SessionClose]"
  by (simp add: onClick_def isConversationActive_def handleStart_def handleStop_def
      handleStartResume_def onopen_def connectFulfilled_def sessionThen_def sessionThenNow_def
      initialState_def connectedState_def truthy_def js_def)

section \<open>Playback scheduler\<close>

subsection \<open>What each block of the handler leaves alone\<close>

lemma handleTranscriptions_scheduler [simp]:
  "nextStartTime (handleTranscriptions env m s) = nextStartTime s"
  "outputSources (handleTranscriptions env m s) = outputSources s"
  "effects (handleTranscriptions env m s) = effects s"
  "nextSourceId (handleTranscriptions env m s) = nextSourceId s"
  "outputAudioContextRef (handleTranscriptions env m s) = outputAudioContextRef s"
  by (simp_all add: handleTranscriptions_def accumulate_def flushTurn_def Let_def
      split: option.splits)

lemma playAudio_enqueue:
  assumes "outputAudioContextRef s" "b \<noteq> []" "decodeAudioData env b = Inr d"
  shows "playAudio env (Some b) s =
    (s\<lparr>effects := effects s @ [SourceStart (nextSourceId s) (max (nextStartTime s) (currentTime env))],
       nextStartTime := max (nextStartTime s) (currentTime env) + d,
       outputSources := outputSources s @
         [\<lparr>node_id = nextSourceId s, startAt = max (nextStartTime s) (currentTime env),
           buffer_duration = d\<rparr>],
       nextSourceId := Suc (nextSourceId s)\<rparr>, None)"
  using assms by (simp add: playAudio_def Let_def)

lemma playAudio_cursor_mono:
  assumes "\<And>b d. decodeAudioData env b = Inr d \<Longrightarrow> 0 \<le> d"
  shows "nextStartTime s \<le> nextStartTime (fst (playAudio env audio s))"
proof (cases audio)
  case None
  then show ?thesis by (simp add: playAudio_def)
next
  case (Some b)
  show ?thesis
  proof (cases "decodeAudioData env b")
    case (Inl e)
    with Some show ?thesis by (simp add: playAudio_def Let_def)
  next
    case (Inr d)
    with assms have "0 \<le> d" by blast
    with Some Inr show ?thesis by (auto simp add: playAudio_def Let_def max_def)
  qed
qed

lemma playAudio_keeps_sources:
  "set (outputSources s) \<subseteq> set (outputSources (fst (playAudio env audio s)))"
  by (auto simp add: playAudio_def Let_def split: option.splits sum.splits)

lemma playAudio_context:
  "outputAudioContextRef (fst (playAudio env audio s)) = outputAudioContextRef s"
  by (simp add: playAudio_def Let_def split: option.splits sum.splits)

lemma handleServerMessage_context:
  "outputAudioContextRef (fst (handleServerMessage env m s)) = outputAudioContextRef s"
proof (cases "base64Audio m")
  case (Inl e)
  then show ?thesis by (simp add: handleServerMessage_def)
next
  case (Inr audio)
  obtain s1 r where p: "playAudio env audio s = (s1, r)" by (cases "playAudio env audio s")
  with playAudio_context [of env audio s] have "outputAudioContextRef s1 = outputAudioContextRef s"
    by simp
  with Inr p show ?thesis
    by (cases r) (simp_all add: handleServerMessage_def interruptAudio_def)
qed

lemma handleServerMessage_enqueue:
  assumes "base64Audio m = Inr (Some b)" "b \<noteq> []" "outputAudioContextRef s"
    "decodeAudioData env b = Inr d" "\<not> msgInterrupted m"
  shows "snd (handleServerMessage env m s) = None"
    "outputSources (fst (handleServerMessage env m s)) = outputSources s @
         [\<lparr>node_id = nextSourceId s, startAt = max (nextStartTime s) (currentTime env),
           buffer_duration = d\<rparr>]"
    "effects (fst (handleServerMessage env m s)) =
       effects s @ [SourceStart (nextSourceId s) (max (nextStartTime s) (currentTime env))]"
    "nextStartTime (fst (handleServerMessage env m s)) =
       max (nextStartTime s) (currentTime env) + d"
    "outputAudioContextRef (fst (handleServerMessage env m s))"
    "nextSourceId (fst (handleServerMessage env m s)) = Suc (nextSourceId s)"
  using assms by (simp_all add: handleServerMessage_def playAudio_enqueue)

lemma handleServerMessage_cursor:
  assumes "\<And>b d. decodeAudioData env b = Inr d \<Longrightarrow> 0 \<le> d"
  shows "(msgInterrupted m \<and> snd (handleServerMessage env m s) = None \<longrightarrow>
            nextStartTime (fst (handleServerMessage env m s)) = 0
            \<and> outputSources (fst (handleServerMessage env m s)) = [])
       \<and> (\<not> (msgInterrupted m \<and> snd (handleServerMessage env m s) = None) \<longrightarrow>
            nextStartTime s \<le> nextStartTime (fst (handleServerMessage env m s)))"
proof (cases "base64Audio m")
  case (Inl e)
  then show ?thesis by (simp add: handleServerMessage_def)
next
  case (Inr audio)
  have mono: "nextStartTime s \<le> nextStartTime (fst (playAudio env audio s))"
    using assms by (rule playAudio_cursor_mono)
  obtain s1 r where p: "playAudio env audio s = (s1, r)" by (cases "playAudio env audio s")
  with mono have m1: "nextStartTime s \<le> nextStartTime s1" by simp
  show ?thesis
  proof (cases r)
    case None
    with Inr p m1 show ?thesis
      by (simp add: handleServerMessage_def interruptAudio_def)
  next
    case (Some e)
    with Inr p m1 show ?thesis
      by (simp add: handleServerMessage_def)
  qed
qed

subsection \<open>Interrupt\<close>

text \<open>
  C4. A message with the interruption flag whose audio part, if any, did not throw reaches
  the interrupt block in state \<open>s1\<close>. The block calls \<open>stop\<close> on every node of the active
  set of \<open>s1\<close> (which holds every node that was active before the message), empties the
  set and puts the cursor to zero. The next payload, enqueued at a clock reading
  \<open>currentTime env2\<close> (never negative for an audio context), starts at that reading.
\<close>

theorem interrupt_flushes_playback:
  assumes "msgInterrupted m" and "base64Audio m = Inr audio"
    and "playAudio env audio s = (s1, None)"
  shows "snd (handleServerMessage env m s) = None
    \<and> set (outputSources s) \<subseteq> set (outputSources s1)
    \<and> effects (fst (handleServerMessage env m s)) =
         effects s1 @ map (\<lambda>n. SourceStop (node_id n)) (outputSources s1)
    \<and> outputSources (fst (handleServerMessage env m s)) = []
    \<and> nextStartTime (fst (handleServerMessage env m s)) = 0
    \<and> (base64Audio m2 = Inr (Some b) \<and> b \<noteq> [] \<and> outputAudioContextRef s
         \<and> decodeAudioData env2 b = Inr d \<and> \<not> msgInterrupted m2 \<and> 0 \<le> currentTime env2 \<longrightarrow>
       outputSources (fst (handleServerMessage env2 m2 (fst (handleServerMessage env m s)))) =
         [\<lparr>node_id = nextSourceId s1, startAt = currentTime env2, buffer_duration = d\<rparr>]
       \<and> effects (fst (handleServerMessage env2 m2 (fst (handleServerMessage env m s)))) =
           effects (fst (handleServerMessage env m s))
           @ [SourceStart (nextSourceId s1) (currentTime env2)])"
proof -
  let ?s' = "fst (handleServerMessage env m s)"
  have sub: "set (outputSources s) \<subseteq> set (outputSources s1)"
    using playAudio_keeps_sources [of s env audio] assms(3) by simp
  have res: "handleServerMessage env m s = (handleTranscriptions env m (interruptAudio s1), None)"
    using assms by (simp add: handleServerMessage_def)
  have a: "snd (handleServerMessage env m s) = None" using res by simp
  have b: "effects ?s' = effects s1 @ map (\<lambda>n. SourceStop (node_id n)) (outputSources s1)"
    using res by (simp add: interruptAudio_def)
  have c: "outputSources ?s' = []" using res by (simp add: interruptAudio_def)
  have d: "nextStartTime ?s' = 0" using res by (simp add: interruptAudio_def)
  have e: "nextSourceId ?s' = nextSourceId s1" using res by (simp add: interruptAudio_def)
  have f: "outputAudioContextRef ?s' = outputAudioContextRef s"
    by (rule handleServerMessage_context)
  have g: "outputSources (fst (handleServerMessage env2 m2 ?s')) =
         [\<lparr>node_id = nextSourceId s1, startAt = currentTime env2, buffer_duration = d\<rparr>]
       \<and> effects (fst (handleServerMessage env2 m2 ?s')) =
           effects ?s' @ [SourceStart (nextSourceId s1) (currentTime env2)]"
    if h: "base64Audio m2 = Inr (Some b)" "b \<noteq> []" "outputAudioContextRef s"
      "decodeAudioData env2 b = Inr d" "\<not> msgInterrupted m2" "0 \<le> currentTime env2"
  proof -
    have ctx: "outputAudioContextRef ?s'" using f h(3) by simp
    show ?thesis
      using handleServerMessage_enqueue(2,3) [OF h(1) h(2) ctx h(4) h(5)] c d e h(6)
      by simp
  qed
  show ?thesis using a sub b c d g by blast
qed

theorem interrupt_flushes_playback_witness:
  "msgInterrupted interruptMessage
   \<and> base64Audio interruptMessage = Inr None
   \<and> playAudio (playbackEnv 1 2) None busyState = (busyState, None)
   \<and> nextStartTime busyState = 5
   \<and> effects (fst (handleServerMessage (playbackEnv 1 2) interruptMessage busyState)) =
       [SourceStop 0]
   \<and> outputSources (fst (handleServerMessage (playbackEnv 1 2) interruptMessage busyState)) = []
   \<and> nextStartTime (fst (handleServerMessage (playbackEnv 1 2) interruptMessage busyState)) = 0
   \<and> outputSources (fst (handleServerMessage (playbackEnv 1 2) (audioMessage (js ''AAAA''))
        (fst (handleServerMessage (playbackEnv 1 2) interruptMessage busyState)))) =
       [\<lparr>node_id = 1, startAt = 1, buffer_duration = 2\<rparr>]"
proof -
  have h1: "msgInterrupted interruptMessage"
    by (simp add: msgInterrupted_def interruptMessage_def)
  have h2: "base64Audio interruptMessage = Inr None"
    by (simp add: base64Audio_def interruptMessage_def)
  have h3: "playAudio (playbackEnv 1 2) None busyState = (busyState, None)"
    by (simp add: playAudio_def)
  have h4: "base64Audio (audioMessage (js ''AAAA'')) = Inr (Some (js ''AAAA''))
     \<and> js ''AAAA'' \<noteq> [] \<and> outputAudioContextRef busyState
     \<and> decodeAudioData (playbackEnv 1 2) (js ''AAAA'') = Inr 2
     \<and> \<not> msgInterrupted (audioMessage (js ''AAAA'')) \<and> 0 \<le> currentTime (playbackEnv 1 2)"
    by (simp add: base64Audio_def audioMessage_def js_def busyState_def connectedState_def
        playbackEnv_def msgInterrupted_def)
  have h5: "nextStartTime busyState = 5 \<and> effects busyState = []
     \<and> outputSources busyState = [\<lparr>node_id = 0, startAt = 3, buffer_duration = 2\<rparr>]
     \<and> nextSourceId busyState = 1"
    by (simp add: busyState_def connectedState_def initialState_def)
  have h6: "currentTime (playbackEnv 1 2) = 1" by (simp add: playbackEnv_def)
  show ?thesis
    using h1 h2 h3 h4 h5 h6
      interrupt_flushes_playback [OF h1 h2 h3, of "audioMessage (js ''AAAA'')" "js ''AAAA''"
        "playbackEnv 1 2" 2]
    by simp
qed

subsection \<open>Enqueue\<close>



subsection \<open>The cursor never moves back, except on an interrupt\<close>

text \<open>
  C8. For every event of the component: if it is a message that reaches the interrupt
  block, the cursor is zero and the active set empty afterwards; otherwise the cursor
  after the event is at least the cursor before. Decoded buffers have a duration that is
  not negative.
\<close>

theorem cursor_monotone_except_interrupt:
  assumes "\<And>env m b d. ev = SessionMessage env m \<Longrightarrow> decodeAudioData env b = Inr d \<Longrightarrow> 0 \<le> d"
  shows "(interruptHandled ev s \<longrightarrow>
            nextStartTime (step ev s) = 0 \<and> outputSources (step ev s) = [])
       \<and> (\<not> interruptHandled ev s \<longrightarrow> nextStartTime s \<le> nextStartTime (step ev s))"
proof (cases ev)
  case (SessionMessage env m)
  with assms have "\<And>b d. decodeAudioData env b = Inr d \<Longrightarrow> 0 \<le> d" by blast
  from handleServerMessage_cursor [of env m s, OF this] SessionMessage show ?thesis by simp
next
  case (Click k)
  then show ?thesis
    by (simp add: onClick_def handleStop_def handleStart_def)
next
  case (MediaSettled outcome)
  then show ?thesis by (simp add: handleStartResume_def split: mediaOutcome.splits)
next
  case SessionOpened
  then show ?thesis by (simp add: onopen_def)
next
  case (SessionError x)
  then show ?thesis by (simp add: onerror_def handleStop_def)
next
  case SessionClosed
  then show ?thesis by (simp add: onclose_def)
next
  case (AudioProcess x)
  then show ?thesis by (simp add: onaudioprocess_def)
next
  case (SourceEnded i)
  then show ?thesis by (simp add: sourceEnded_def)
next
  case (ConnectFulfilled i)
  then show ?thesis by (simp add: connectFulfilled_def)
next
  case (ConnectRejected i)
  then show ?thesis by (simp add: connectRejected_def)
qed

theorem cursor_monotone_except_interrupt_witness:
  "\<not> interruptHandled (SessionMessage (playbackEnv 7 2) (audioMessage (js ''AAAA''))) busyState
   \<and> nextStartTime busyState = 5
   \<and> nextStartTime (step (SessionMessage (playbackEnv 7 2) (audioMessage (js ''AAAA''))) busyState) = 9
   \<and> interruptHandled (SessionMessage (playbackEnv 7 2) interruptMessage) busyState
   \<and> nextStartTime (step (SessionMessage (playbackEnv 7 2) interruptMessage) busyState) = 0
   \<and> outputSources (step (SessionMessage (playbackEnv 7 2) interruptMessage) busyState) = []"
proof -
  have d: "0 \<le> d" if "decodeAudioData (playbackEnv 7 2) b = Inr d" for b d
    using that by (simp add: playbackEnv_def)
  have h1: "\<And>env m b d. SessionMessage (playbackEnv 7 2) (audioMessage (js ''AAAA'')) =
      SessionMessage env m \<Longrightarrow> decodeAudioData env b = Inr d \<Longrightarrow> 0 \<le> d"
    using d by simp
  have h2: "\<And>env m b d. SessionMessage (playbackEnv 7 2) interruptMessage =
      SessionMessage env m \<Longrightarrow> decodeAudioData env b = Inr d \<Longrightarrow> 0 \<le> d"
    using d by simp
  have e1: "\<not> interruptHandled (SessionMessage (playbackEnv 7 2) (audioMessage (js ''AAAA''))) busyState"
    by (simp add: msgInterrupted_def audioMessage_def)
  have e2: "interruptHandled (SessionMessage (playbackEnv 7 2) interruptMessage) busyState"
    by (simp add: msgInterrupted_def interruptMessage_def handleServerMessage_def
        base64Audio_def playAudio_def)
  have e3: "nextStartTime busyState = 5"
    by (simp add: busyState_def)
  have e4: "nextStartTime (step (SessionMessage (playbackEnv 7 2) (audioMessage (js ''AAAA''))) busyState) = 9"
    by (simp add: handleServerMessage_def base64Audio_def audioMessage_def playAudio_def
        js_def busyState_def connectedState_def playbackEnv_def msgInterrupted_def Let_def)
  show ?thesis
    using e1 e2 e3 e4
      cursor_monotone_except_interrupt
        [of "SessionMessage (playbackEnv 7 2) (audioMessage (js ''AAAA''))" busyState, OF h1]
      cursor_monotone_except_interrupt
        [of "SessionMessage (playbackEnv 7 2) interruptMessage" busyState, OF h2]
    by simp
qed

section \<open>Transcripts\<close>

subsection \<open>Rounding a sequence id\<close>

lemma ilog2_bounds: "0 < n \<Longrightarrow> 2 ^ ilog2 n \<le> n \<and> n < 2 ^ Suc (ilog2 n)"
proof (induction n rule: ilog2.induct)
  case (1 n)
  show ?case
  proof (cases "n < 2")
    case True
    with "1.prems" have "n = 1" by simp
    then show ?thesis by (simp add: ilog2.simps)
  next
    case False
    then have pos: "0 < n div 2" by simp
    from "1.IH" [OF False pos]
    have ih: "2 ^ ilog2 (n div 2) \<le> n div 2" "n div 2 < 2 ^ Suc (ilog2 (n div 2))" by simp_all
    have e: "ilog2 n = Suc (ilog2 (n div 2))" using False by (simp add: ilog2.simps [of n])
    have a: "2 * 2 ^ ilog2 (n div 2) \<le> n" using ih(1) by linarith
    have b: "n < 2 * 2 ^ Suc (ilog2 (n div 2))" using ih(2) by linarith
    show ?thesis using a b by (simp add: e)
  qed
qed

lemma ilog2_unique:
  assumes "2 ^ e \<le> n" and "n < 2 ^ Suc e"
  shows "ilog2 n = e"
proof -
  have pos: "0 < n" using assms(1) by (metis gr0I not_le zero_less_numeral zero_less_power)
  note b = ilog2_bounds [OF pos]
  have "\<not> ilog2 n < e"
  proof
    assume "ilog2 n < e"
    then have "Suc (ilog2 n) \<le> e" by simp
    then have "(2::nat) ^ Suc (ilog2 n) \<le> 2 ^ e" by (rule power_increasing) simp
    with b assms(1) show False by linarith
  qed
  moreover have "\<not> e < ilog2 n"
  proof
    assume "e < ilog2 n"
    then have "Suc e \<le> ilog2 n" by simp
    then have "(2::nat) ^ Suc e \<le> 2 ^ ilog2 n" by (rule power_increasing) simp
    with b assms(2) show False by linarith
  qed
  ultimately show ?thesis by linarith
qed

lemma exponent2_binade:
  assumes "2 ^ e \<le> x" and "x < 2 ^ Suc e"
  shows "exponent2 x = int e"
proof -
  have one: "1 \<le> x"
  proof -
    have "(1::real) \<le> 2 ^ e" by simp
    with assms(1) show ?thesis by linarith
  qed
  have f0: "0 \<le> \<lfloor>x\<rfloor>" using one by simp
  have "real_of_int (2 ^ e) \<le> x" using assms(1) by simp
  then have l: "2 ^ e \<le> \<lfloor>x\<rfloor>" by (simp only: le_floor_iff)
  have "x < real_of_int (2 ^ Suc e)" using assms(2) by simp
  then have u: "\<lfloor>x\<rfloor> < 2 ^ Suc e" by (simp only: floor_less_iff)
  have l': "2 ^ e \<le> nat \<lfloor>x\<rfloor>" using l f0 by (simp add: le_nat_iff)
  have u': "nat \<lfloor>x\<rfloor> < 2 ^ Suc e" using u f0 by (simp add: nat_less_iff)
  have "ilog2 (nat \<lfloor>x\<rfloor>) = e" by (rule ilog2_unique [OF l' u'])
  then show ?thesis using one by (simp add: exponent2_def)
qed

lemma binary64_binade:
  assumes "2 ^ e \<le> x" and "x < 2 ^ Suc e" and "e \<le> 52"
  shows "binary64 x = real_of_int (roundEven (x * 2 ^ (52 - e))) / 2 ^ (52 - e)"
proof -
  have pos: "0 < x"
  proof -
    have "(0::real) < 2 ^ e" by simp
    with assms(1) show ?thesis by linarith
  qed
  have ex: "exponent2 \<bar>x\<bar> = int e" using exponent2_binade [OF assms(1,2)] pos by simp
  have m: "max (int e) (- 1022) - 52 = - int (52 - e)" using assms(3) by simp
  have u: "(2::real) powi (max (exponent2 \<bar>x\<bar>) (- 1022) - 52) = 1 / 2 ^ (52 - e)"
    unfolding ex m by (simp only: power_int_minus power_int_of_nat inverse_eq_divide)
  show ?thesis using pos unfolding binary64_def u by (simp add: Let_def)
qed




text \<open>Sums that a double holds exactly, and two that it does not.\<close>

lemma turnId_values:
  "turnId 998 (1 / 2) = 998 + 1 / 2"
  "turnId 1000 (1 / 4) = 1000 + 1 / 4"
  "turnId 1000 (1 / 2) = 1000 + 1 / 2"
  "turnId 1000 (3 / 4) = 1000 + 3 / 4"
  "turnId 1002 (1 / 4) = 1002 + 1 / 4"
  unfolding turnId_def by (subst binary64_binade [of 9], simp_all add: roundEven_def)+


subsection \<open>The handler's effect on the transcript fields\<close>

lemma run_append: "run (es @ fs) s = run fs (run es s)"
  by (induction es arbitrary: s) simp_all

lemma playAudio_transcript [simp]:
  "transcriptions (fst (playAudio env audio s)) = transcriptions s"
  "currentInputTranscription (fst (playAudio env audio s)) = currentInputTranscription s"
  "currentOutputTranscription (fst (playAudio env audio s)) = currentOutputTranscription s"
  by (simp_all add: playAudio_def Let_def split: option.splits sum.splits)

lemma interruptAudio_transcript [simp]:
  "transcriptions (interruptAudio s) = transcriptions s"
  "currentInputTranscription (interruptAudio s) = currentInputTranscription s"
  "currentOutputTranscription (interruptAudio s) = currentOutputTranscription s"
  by (simp_all add: interruptAudio_def)

lemma accumulate_fields:
  "transcriptions (accumulate m s) = transcriptions s"
  "currentInputTranscription (accumulate m s) =
     (case msgInputTranscription m of
        None \<Rightarrow> currentInputTranscription s
      | Some t \<Rightarrow> appendText (currentInputTranscription s) t)"
  "currentOutputTranscription (accumulate m s) =
     (case msgOutputTranscription m of
        None \<Rightarrow> currentOutputTranscription s
      | Some t \<Rightarrow> appendText (currentOutputTranscription s) t)"
  by (simp_all add: accumulate_def Let_def split: option.splits)

lemma handleTranscriptions_cong:
  assumes "transcriptions s2 = transcriptions s"
    and "currentInputTranscription s2 = currentInputTranscription s"
    and "currentOutputTranscription s2 = currentOutputTranscription s"
  shows "transcriptions (handleTranscriptions env m s2) =
           transcriptions (handleTranscriptions env m s)"
    and "currentInputTranscription (handleTranscriptions env m s2) =
           currentInputTranscription (handleTranscriptions env m s)"
    and "currentOutputTranscription (handleTranscriptions env m s2) =
           currentOutputTranscription (handleTranscriptions env m s)"
  using assms
  by (simp_all add: handleTranscriptions_def flushTurn_def Let_def accumulate_fields
      split: option.splits)

lemma handleServerMessage_transcript:
  assumes "snd (handleServerMessage env m s) = None"
  shows "transcriptions (fst (handleServerMessage env m s)) =
           transcriptions (handleTranscriptions env m s)"
    and "currentInputTranscription (fst (handleServerMessage env m s)) =
           currentInputTranscription (handleTranscriptions env m s)"
    and "currentOutputTranscription (fst (handleServerMessage env m s)) =
           currentOutputTranscription (handleTranscriptions env m s)"
proof -
  obtain audio where a: "base64Audio m = Inr audio"
    using assms by (cases "base64Audio m") (simp_all add: handleServerMessage_def)
  obtain s1 r where p: "playAudio env audio s = (s1, r)" by (cases "playAudio env audio s")
  have r: "r = None" using assms a p by (cases r) (simp_all add: handleServerMessage_def)
  let ?s2 = "if msgInterrupted m then interruptAudio s1 else s1"
  have res: "fst (handleServerMessage env m s) = handleTranscriptions env m ?s2"
    using a p r by (simp add: handleServerMessage_def)
  have s1: "transcriptions s1 = transcriptions s"
    "currentInputTranscription s1 = currentInputTranscription s"
    "currentOutputTranscription s1 = currentOutputTranscription s"
    using playAudio_transcript [of env audio s] p by simp_all
  have s2: "transcriptions ?s2 = transcriptions s"
    "currentInputTranscription ?s2 = currentInputTranscription s"
    "currentOutputTranscription ?s2 = currentOutputTranscription s"
    using s1 by simp_all
  show "transcriptions (fst (handleServerMessage env m s)) =
           transcriptions (handleTranscriptions env m s)"
    unfolding res by (rule handleTranscriptions_cong(1) [OF s2])
  show "currentInputTranscription (fst (handleServerMessage env m s)) =
           currentInputTranscription (handleTranscriptions env m s)"
    unfolding res by (rule handleTranscriptions_cong(2) [OF s2])
  show "currentOutputTranscription (fst (handleServerMessage env m s)) =
           currentOutputTranscription (handleTranscriptions env m s)"
    unfolding res by (rule handleTranscriptions_cong(3) [OF s2])
qed

lemma turn_complete_flush:
  assumes "msgTurnComplete m" and "snd (handleServerMessage env m s) = None"
  shows "transcriptions (fst (handleServerMessage env m s)) =
           transcriptions s
           @ userTurns env (trim (currentInputTranscription (accumulate m s)))
           @ modelTurns env (trim (currentInputTranscription (accumulate m s)))
               (trim (currentOutputTranscription (accumulate m s)))"
    and "currentInputTranscription (fst (handleServerMessage env m s)) = []"
    and "currentOutputTranscription (fst (handleServerMessage env m s)) = []"
  using assms(1) handleServerMessage_transcript [OF assms(2)]
  by (simp_all add: handleTranscriptions_def flushTurn_def Let_def accumulate_fields(1))


lemma handle_inputFragment:
  "handleServerMessage env (inputFragment f) s =
     (s\<lparr>currentInputTranscription := currentInputTranscription s @ f\<rparr>, None)"
  by (simp add: handleServerMessage_def base64Audio_def inputFragment_def playAudio_def
      msgInterrupted_def handleTranscriptions_def accumulate_def msgInputTranscription_def
      msgOutputTranscription_def msgTurnComplete_def appendText_def)


lemma handle_turnCompleteMessage:
  "handleServerMessage env turnCompleteMessage s = (flushTurn env s, None)"
  by (simp add: handleServerMessage_def base64Audio_def turnCompleteMessage_def playAudio_def
      msgInterrupted_def handleTranscriptions_def accumulate_def msgInputTranscription_def
      msgOutputTranscription_def msgTurnComplete_def)

lemma run_fragmentEvents:
  "run (fragmentEvents efs) s =
     s\<lparr>currentInputTranscription := currentInputTranscription s @ concat (map snd efs)\<rparr>"
proof (induction efs arbitrary: s)
  case Nil
  then show ?case by (simp add: fragmentEvents_def)
next
  case (Cons ef efs)
  obtain env f where ef: "ef = (env, f)" by (cases ef)
  have "run (fragmentEvents (ef # efs)) s =
      run (fragmentEvents efs) (step (SessionMessage env (inputFragment f)) s)"
    by (simp add: fragmentEvents_def ef)
  also have "\<dots> = run (fragmentEvents efs)
      (s\<lparr>currentInputTranscription := currentInputTranscription s @ f\<rparr>)"
    by (simp add: handle_inputFragment)
  also have "\<dots> = s\<lparr>currentInputTranscription :=
      currentInputTranscription s @ concat (map snd (ef # efs))\<rparr>"
    by (simp add: Cons.IH ef)
  finally show ?case .
qed

subsection \<open>Trimming\<close>

lemma trim_decomposition:
  "x = takeWhile isWhiteSpace x @ trim x
         @ rev (takeWhile isWhiteSpace (rev (dropWhile isWhiteSpace x)))"
proof -
  let ?y = "dropWhile isWhiteSpace x"
  have "rev ?y = takeWhile isWhiteSpace (rev ?y) @ dropWhile isWhiteSpace (rev ?y)"
    by simp
  then have "?y = rev (dropWhile isWhiteSpace (rev ?y)) @ rev (takeWhile isWhiteSpace (rev ?y))"
    by (metis rev_append rev_rev_ident)
  then have "?y = trim x @ rev (takeWhile isWhiteSpace (rev ?y))"
    by (simp add: trim_def)
  moreover have "x = takeWhile isWhiteSpace x @ ?y" by simp
  ultimately show ?thesis by simp
qed

lemma dropWhile_all_iff:
  "(\<forall>c \<in> set (dropWhile P xs). P c) \<longleftrightarrow> dropWhile P xs = []"
proof
  assume a: "\<forall>c \<in> set (dropWhile P xs). P c"
  show "dropWhile P xs = []"
  proof (rule ccontr)
    assume n: "dropWhile P xs \<noteq> []"
    then have "\<not> P (hd (dropWhile P xs))" by (rule hd_dropWhile)
    moreover have "hd (dropWhile P xs) \<in> set (dropWhile P xs)" using n by simp
    ultimately show False using a by blast
  qed
next
  assume "dropWhile P xs = []"
  then show "\<forall>c \<in> set (dropWhile P xs). P c" by (simp only: list.set ball_empty)
qed

lemma trim_empty_iff: "trim x = [] \<longleftrightarrow> (\<forall>c \<in> set x. isWhiteSpace c)"
proof -
  have "trim x = [] \<longleftrightarrow> dropWhile isWhiteSpace (rev (dropWhile isWhiteSpace x)) = []"
    by (simp add: trim_def)
  also have "\<dots> \<longleftrightarrow> (\<forall>c \<in> set (dropWhile isWhiteSpace x). isWhiteSpace c)"
    by (simp only: dropWhile_eq_Nil_conv set_rev)
  also have "\<dots> \<longleftrightarrow> dropWhile isWhiteSpace x = []"
    by (rule dropWhile_all_iff)
  also have "\<dots> \<longleftrightarrow> (\<forall>c \<in> set x. isWhiteSpace c)"
    by (simp only: dropWhile_eq_Nil_conv)
  finally show ?thesis .
qed

lemma trim_ends:
  assumes "trim x \<noteq> []"
  shows "\<not> isWhiteSpace (hd (trim x))" and "\<not> isWhiteSpace (last (trim x))"
proof -
  let ?y = "dropWhile isWhiteSpace x"
  let ?z = "dropWhile isWhiteSpace (rev ?y)"
  have z: "?z \<noteq> []" using assms by (simp add: trim_def)
  then have "\<not> isWhiteSpace (hd ?z)" by (rule hd_dropWhile)
  then show "\<not> isWhiteSpace (last (trim x))"
    using z by (simp add: trim_def last_rev)
  have y: "?y \<noteq> []"
  proof
    assume "?y = []"
    then have "?z = []" by (simp only: rev.simps dropWhile.simps)
    with z show False by blast
  qed
  then have hy: "\<not> isWhiteSpace (hd ?y)" by (rule hd_dropWhile)
  have "rev ?y = takeWhile isWhiteSpace (rev ?y) @ ?z" by simp
  then have "?y = rev ?z @ rev (takeWhile isWhiteSpace (rev ?y))"
    by (metis rev_append rev_rev_ident)
  then have "hd ?y = hd (rev ?z)" using z by (metis hd_append2 rev_is_Nil_conv)
  then show "\<not> isWhiteSpace (hd (trim x))" using hy by (simp add: trim_def)
qed

subsection \<open>What a turn-complete signal emits\<close>

text \<open>
  C10. When a message with the turn-complete signal is handled to its end, the turns
  appended are the trimmed input accumulator as a user turn and the trimmed output
  accumulator as a model turn, each left out when its trimmed text is empty, and both
  accumulators are empty afterwards. The accumulators are those after the message's own
  fragments were appended. For every string \<open>x\<close>: \<open>trim x\<close> is \<open>x\<close> without a prefix
  and a suffix of white space, it is empty exactly when \<open>x\<close> is all white space, and
  otherwise it neither starts nor ends with white space.
\<close>

theorem turn_complete_trims:
  assumes "msgTurnComplete m" and "snd (handleServerMessage env m s) = None"
  shows "map (\<lambda>t. (t_speaker t, t_text t)) (transcriptions (fst (handleServerMessage env m s))) =
      map (\<lambda>t. (t_speaker t, t_text t)) (transcriptions s)
      @ (if trim (currentInputTranscription (accumulate m s)) = [] then []
         else [(User, trim (currentInputTranscription (accumulate m s)))])
      @ (if trim (currentOutputTranscription (accumulate m s)) = [] then []
         else [(Model, trim (currentOutputTranscription (accumulate m s)))])
    \<and> currentInputTranscription (fst (handleServerMessage env m s)) = []
    \<and> currentOutputTranscription (fst (handleServerMessage env m s)) = []
    \<and> x = takeWhile isWhiteSpace x @ trim x
            @ rev (takeWhile isWhiteSpace (rev (dropWhile isWhiteSpace x)))
    \<and> (trim x = [] \<longleftrightarrow> (\<forall>c \<in> set x. isWhiteSpace c))
    \<and> (trim x \<noteq> [] \<longrightarrow> \<not> isWhiteSpace (hd (trim x)) \<and> \<not> isWhiteSpace (last (trim x)))"
proof -
  note f = turn_complete_flush [OF assms]
  have a: "map (\<lambda>t. (t_speaker t, t_text t)) (transcriptions (fst (handleServerMessage env m s))) =
      map (\<lambda>t. (t_speaker t, t_text t)) (transcriptions s)
      @ (if trim (currentInputTranscription (accumulate m s)) = [] then []
         else [(User, trim (currentInputTranscription (accumulate m s)))])
      @ (if trim (currentOutputTranscription (accumulate m s)) = [] then []
         else [(Model, trim (currentOutputTranscription (accumulate m s)))])"
    unfolding f(1) by (simp add: userTurns_def modelTurns_def)
  have b: "x = takeWhile isWhiteSpace x @ trim x
            @ rev (takeWhile isWhiteSpace (rev (dropWhile isWhiteSpace x)))"
    by (rule trim_decomposition)
  have c: "trim x = [] \<longleftrightarrow> (\<forall>c \<in> set x. isWhiteSpace c)" by (rule trim_empty_iff)
  have d: "trim x \<noteq> [] \<longrightarrow> \<not> isWhiteSpace (hd (trim x)) \<and> \<not> isWhiteSpace (last (trim x))"
    using trim_ends [of x] by blast
  show ?thesis using a f(2) f(3) b c d by blast
qed

theorem turn_complete_trims_witness:
  "msgTurnComplete turnCompleteMessage
   \<and> snd (handleServerMessage (turnEnv 1000 (1/4) 1000 (1/2)) turnCompleteMessage paddedState) = None
   \<and> map t_text (transcriptions paddedState) = []
   \<and> currentInputTranscription (accumulate turnCompleteMessage paddedState) = js '' hi ''
   \<and> currentOutputTranscription (accumulate turnCompleteMessage paddedState) = js ''  ''
   \<and> trim (js '' hi '') = js ''hi'' \<and> trim (js ''  '') = []
   \<and> map (\<lambda>t. (t_speaker t, t_text t)) (transcriptions
        (fst (handleServerMessage (turnEnv 1000 (1/4) 1000 (1/2)) turnCompleteMessage paddedState))) =
       [(User, js ''hi'')]
   \<and> currentInputTranscription
        (fst (handleServerMessage (turnEnv 1000 (1/4) 1000 (1/2)) turnCompleteMessage paddedState)) = []"
proof -
  have h1: "msgTurnComplete turnCompleteMessage"
    by (simp add: msgTurnComplete_def turnCompleteMessage_def)
  have h2: "snd (handleServerMessage (turnEnv 1000 (1/4) 1000 (1/2)) turnCompleteMessage paddedState)
      = None"
    by (simp add: handleServerMessage_def base64Audio_def turnCompleteMessage_def playAudio_def)
  have h3: "map t_text (transcriptions paddedState) = []
     \<and> currentInputTranscription (accumulate turnCompleteMessage paddedState) = js '' hi ''
     \<and> currentOutputTranscription (accumulate turnCompleteMessage paddedState) = js ''  ''"
    by (simp add: paddedState_def connectedState_def initialState_def accumulate_def
        msgInputTranscription_def msgOutputTranscription_def turnCompleteMessage_def)
  have h4: "trim (js '' hi '') = js ''hi'' \<and> trim (js ''  '') = []"
    by (simp add: trim_def js_def isWhiteSpace_def)
  have h5: "js ''hi'' \<noteq> []" by (simp add: js_def)
  have h6: "transcriptions paddedState = []"
    by (simp add: paddedState_def connectedState_def initialState_def)
  show ?thesis
    using h1 h2 h3 h4 h5 h6 turn_complete_trims [OF h1 h2, of "js '' hi ''"]
    by simp
qed

text \<open>
  C6, as stated: the user turn's text is the concatenation of the fragments. The fragments
  \<open>" Hel"\<close> and \<open>"lo"\<close> give the text \<open>"Hello"\<close>, which is not their concatenation.
\<close>

theorem fragments_text_counterexample:
  "map t_text (transcriptions
     (run [SessionMessage (playbackEnv 0 0) (inputFragment (js '' Hel'')),
           SessionMessage (playbackEnv 0 0) (inputFragment (js ''lo'')),
           SessionMessage (playbackEnv 0 0) turnCompleteMessage] initialState)) = [js ''Hello'']
   \<and> js ''Hello'' \<noteq> js '' Hel'' @ js ''lo''"
  by (simp add: handle_inputFragment handle_turnCompleteMessage flushTurn_def initialState_def
      userTurns_def modelTurns_def trim_def isWhiteSpace_def js_def)

text \<open>
  C6, amended. Starting with empty accumulators, input fragments followed by a
  turn-complete signal append one user turn whose text is the trimmed concatenation of the
  fragments, or no turn when that is empty, and leave both accumulators empty. When both
  trimmed accumulators are non-empty, a turn-complete message appends the user turn and
  then the model turn.
\<close>

theorem fragments_then_turn_complete:
  assumes "currentInputTranscription s = []" and "currentOutputTranscription s = []"
  shows "transcriptions (run (fragmentEvents efs @ [SessionMessage env turnCompleteMessage]) s) =
      transcriptions s
      @ (if trim (concat (map snd efs)) = [] then []
         else [\<lparr>t_id = turnId (dateNow1 env) (mathRandom1 env), t_speaker = User,
                t_text = trim (concat (map snd efs))\<rparr>])
    \<and> currentInputTranscription
        (run (fragmentEvents efs @ [SessionMessage env turnCompleteMessage]) s) = []
    \<and> currentOutputTranscription
        (run (fragmentEvents efs @ [SessionMessage env turnCompleteMessage]) s) = []
    \<and> (msgTurnComplete m \<and> snd (handleServerMessage env m s0) = None
        \<and> trim (currentInputTranscription (accumulate m s0)) \<noteq> []
        \<and> trim (currentOutputTranscription (accumulate m s0)) \<noteq> [] \<longrightarrow>
       transcriptions (fst (handleServerMessage env m s0)) =
         transcriptions s0
         @ [\<lparr>t_id = turnId (dateNow1 env) (mathRandom1 env), t_speaker = User,
             t_text = trim (currentInputTranscription (accumulate m s0))\<rparr>,
            \<lparr>t_id = turnId (dateNow2 env) (mathRandom2 env), t_speaker = Model,
             t_text = trim (currentOutputTranscription (accumulate m s0))\<rparr>])"
proof -
  let ?s' = "run (fragmentEvents efs @ [SessionMessage env turnCompleteMessage]) s"
  have r: "?s' = flushTurn env
      (s\<lparr>currentInputTranscription := currentInputTranscription s @ concat (map snd efs)\<rparr>)"
    by (simp add: run_append run_fragmentEvents handle_turnCompleteMessage)
  have a: "transcriptions ?s' =
      transcriptions s
      @ (if trim (concat (map snd efs)) = [] then []
         else [\<lparr>t_id = turnId (dateNow1 env) (mathRandom1 env), t_speaker = User,
                t_text = trim (concat (map snd efs))\<rparr>])"
    unfolding r using assms
    by (simp add: flushTurn_def Let_def userTurns_def modelTurns_def trim_def)
  have b: "currentInputTranscription ?s' = []" "currentOutputTranscription ?s' = []"
    unfolding r by (simp_all add: flushTurn_def Let_def)
  have c: "transcriptions (fst (handleServerMessage env m s0)) =
         transcriptions s0
         @ [\<lparr>t_id = turnId (dateNow1 env) (mathRandom1 env), t_speaker = User,
             t_text = trim (currentInputTranscription (accumulate m s0))\<rparr>,
            \<lparr>t_id = turnId (dateNow2 env) (mathRandom2 env), t_speaker = Model,
             t_text = trim (currentOutputTranscription (accumulate m s0))\<rparr>]"
    if h: "msgTurnComplete m" "snd (handleServerMessage env m s0) = None"
      "trim (currentInputTranscription (accumulate m s0)) \<noteq> []"
      "trim (currentOutputTranscription (accumulate m s0)) \<noteq> []"
    using turn_complete_flush(1) [OF h(1) h(2)] h(3) h(4)
    by (simp add: userTurns_def modelTurns_def)
  show ?thesis using a b c by blast
qed

theorem fragments_then_turn_complete_witness:
  "currentInputTranscription connectedState = []
   \<and> currentOutputTranscription connectedState = []
   \<and> trim (js ''Hel'' @ js ''lo'') = js ''Hello''
   \<and> transcriptions (run (fragmentEvents [(playbackEnv 0 0, js ''Hel''), (playbackEnv 0 0, js ''lo'')]
          @ [SessionMessage (turnEnv 1000 (1/4) 1000 (1/2)) turnCompleteMessage]) connectedState) =
       [\<lparr>t_id = 1000 + 1/4, t_speaker = User, t_text = js ''Hello''\<rparr>]
   \<and> msgTurnComplete turnCompleteMessage
   \<and> snd (handleServerMessage (turnEnv 1000 (1/4) 1000 (1/2)) turnCompleteMessage pendingState) = None
   \<and> transcriptions
        (fst (handleServerMessage (turnEnv 1000 (1/4) 1000 (1/2)) turnCompleteMessage pendingState)) =
       [\<lparr>t_id = 1000 + 1/4, t_speaker = User, t_text = js ''a''\<rparr>,
        \<lparr>t_id = 1000 + 1/2, t_speaker = Model, t_text = js ''b''\<rparr>]"
proof -
  have h1: "currentInputTranscription connectedState = []"
    by (simp add: connectedState_def initialState_def)
  have h2: "currentOutputTranscription connectedState = []"
    by (simp add: connectedState_def initialState_def)
  have h3: "trim (js ''Hel'' @ js ''lo'') = js ''Hello'' \<and> js ''Hello'' \<noteq> []
     \<and> trim (js ''a'') = js ''a'' \<and> trim (js ''b'') = js ''b''
     \<and> js ''a'' \<noteq> [] \<and> js ''b'' \<noteq> []"
    by (simp add: trim_def js_def isWhiteSpace_def)
  have h4: "msgTurnComplete turnCompleteMessage"
    by (simp add: msgTurnComplete_def turnCompleteMessage_def)
  have h5: "snd (handleServerMessage (turnEnv 1000 (1/4) 1000 (1/2)) turnCompleteMessage pendingState)
      = None"
    by (simp add: handle_turnCompleteMessage)
  have h6: "currentInputTranscription (accumulate turnCompleteMessage pendingState) = js ''a''
     \<and> currentOutputTranscription (accumulate turnCompleteMessage pendingState) = js ''b''
     \<and> transcriptions pendingState = [] \<and> transcriptions connectedState = []"
    by (simp add: pendingState_def connectedState_def initialState_def accumulate_def
        msgInputTranscription_def msgOutputTranscription_def turnCompleteMessage_def)
  show ?thesis
    using h1 h2 h3 h4 h5 h6
      fragments_then_turn_complete [OF h1 h2,
        of "[(playbackEnv 0 0, js ''Hel''), (playbackEnv 0 0, js ''lo'')]"
           "turnEnv 1000 (1/4) 1000 (1/2)" turnCompleteMessage pendingState]
    by (simp add: turnEnv_def turnId_values)
qed

subsection \<open>Sequence ids\<close>





section \<open>PCM round trip\<close>

subsection \<open>Bytes, truncation and the signed reading\<close>

lemma int16LE_int16Bytes: "int16LE (int16Bytes w @ rest) = w # int16LE rest"
proof -
  have "push_bit 8 (ucast (ucast (drop_bit 8 w) :: 8 word)) OR ucast (ucast w :: 8 word) = w"
    by (rule bit_word_eqI) (auto simp add: bit_simps)
  then show ?thesis by (simp add: int16Bytes_def)
qed

lemma int16LE_floatToPcm16:
  "int16LE (floatToPcm16 samples) = map (\<lambda>x. toInt16 (x * 32768)) samples"
proof (induction samples)
  case Nil
  then show ?case by (simp add: floatToPcm16_def)
next
  case (Cons x xs)
  have "floatToPcm16 (x # xs) = int16Bytes (toInt16 (x * 32768)) @ floatToPcm16 xs"
    by (simp add: floatToPcm16_def)
  then show ?case using Cons.IH by (simp add: int16LE_int16Bytes)
qed

lemma length_floatToPcm16: "length (floatToPcm16 samples) = 2 * length samples"
  by (induction samples) (simp_all add: floatToPcm16_def int16Bytes_def)

lemma jsTruncate_error: "\<bar>real_of_int (jsTruncate y) - y\<bar> < 1"
  unfolding jsTruncate_def by (cases "0 \<le> y") (simp_all, linarith+)

lemma jsTruncate_range:
  assumes "- 32768 \<le> y" and "y < 32768"
  shows "- 32768 \<le> jsTruncate y" and "jsTruncate y < 32768"
proof -
  show "- 32768 \<le> jsTruncate y"
  proof (cases "0 \<le> y")
    case True
    then have "0 \<le> \<lfloor>y\<rfloor>" by simp
    with True show ?thesis by (simp add: jsTruncate_def)
  next
    case False
    have "y \<le> real_of_int \<lceil>y\<rceil>" by (rule le_of_int_ceiling)
    with assms(1) have "real_of_int (- 32768) \<le> real_of_int \<lceil>y\<rceil>" by linarith
    then have "- 32768 \<le> \<lceil>y\<rceil>" by (simp only: of_int_le_iff)
    with False show ?thesis by (simp add: jsTruncate_def)
  qed
  show "jsTruncate y < 32768"
  proof (cases "0 \<le> y")
    case True
    have "real_of_int \<lfloor>y\<rfloor> \<le> y" by (rule of_int_floor_le)
    with assms(2) have "real_of_int \<lfloor>y\<rfloor> < real_of_int 32768" by linarith
    then have "\<lfloor>y\<rfloor> < 32768" by (simp only: of_int_less_iff)
    with True show ?thesis by (simp add: jsTruncate_def)
  next
    case False
    then have "\<lceil>y\<rceil> \<le> 0" by (simp add: ceiling_le_iff)
    with False show ?thesis by (simp add: jsTruncate_def)
  qed
qed

lemma sint_toInt16:
  assumes "- 32768 \<le> y" and "y < 32768"
  shows "sint (toInt16 y) = jsTruncate y"
proof -
  have "signed_take_bit 15 (jsTruncate y) = jsTruncate y"
    using jsTruncate_range [OF assms] by (simp add: signed_take_bit_int_eq_self)
  then show ?thesis by (simp add: toInt16_def sint_sbintrunc')
qed

lemma sample_round_trip:
  assumes "- 1 \<le> x" and "x < 1"
  shows "real_of_int (sint (toInt16 (x * 32768))) / 32768 =
           real_of_int (jsTruncate (x * 32768)) / 32768"
    and "\<bar>real_of_int (jsTruncate (x * 32768)) / 32768 - x\<bar> < 1 / 32768"
proof -
  have r: "- 32768 \<le> x * 32768" "x * 32768 < 32768" using assms by simp_all
  show "real_of_int (sint (toInt16 (x * 32768))) / 32768 =
           real_of_int (jsTruncate (x * 32768)) / 32768"
    by (simp add: sint_toInt16 [OF r])
  have "\<bar>real_of_int (jsTruncate (x * 32768)) - x * 32768\<bar> < 1"
    by (rule jsTruncate_error)
  then have "\<bar>real_of_int (jsTruncate (x * 32768)) - x * 32768\<bar> / 32768 < 1 / 32768"
    by simp
  moreover have "\<bar>real_of_int (jsTruncate (x * 32768)) - x * 32768\<bar> / 32768 =
      \<bar>real_of_int (jsTruncate (x * 32768)) / 32768 - x\<bar>"
  proof -
    have "real_of_int (jsTruncate (x * 32768)) / 32768 - x =
        (real_of_int (jsTruncate (x * 32768)) - x * 32768) / 32768"
      by (simp add: diff_divide_distrib)
    then show ?thesis by (simp only: abs_divide)
  qed
  ultimately show "\<bar>real_of_int (jsTruncate (x * 32768)) / 32768 - x\<bar> < 1 / 32768"
    by simp
qed

subsection \<open>The round trip\<close>

text \<open>
  C7, as stated: every sample in [-1, 1] comes back within 1/32768. The sample 1.0 is
  multiplied to 32768, which the 16-bit store wraps to -32768: it comes back as -1.0.
\<close>

theorem pcm16_round_trip_counterexample:
  "pcm16ToFloat (floatToPcm16 [1]) 16000 1 =
     Inr \<lparr>buf_sampleRate = 16000, buf_channelCount = 1, buf_samples = [- 1]\<rparr>
   \<and> \<not> \<bar>(- 1 :: real) - 1\<bar> \<le> 1 / 32768"
  by (simp add: pcm16ToFloat_def floatToPcm16_def int16Bytes_def toInt16_def jsTruncate_def)

text \<open>
  C7, amended. For samples in [-1, 1), converting to 16-bit PCM bytes and back (one
  channel) succeeds and gives, for each sample \<open>x\<close>, the value of \<open>x * 32768\<close>
  truncated towards zero and divided by 32768, which differs from \<open>x\<close> by less than
  1/32768.
\<close>

theorem pcm16_round_trip:
  assumes "\<forall>x \<in> set samples. - 1 \<le> x \<and> x < 1"
  shows "pcm16ToFloat (floatToPcm16 samples) sampleRate 1 =
      Inr \<lparr>buf_sampleRate = sampleRate, buf_channelCount = 1,
           buf_samples = map (\<lambda>x. real_of_int (jsTruncate (x * 32768)) / 32768) samples\<rparr>
    \<and> (\<forall>x \<in> set samples. \<bar>real_of_int (jsTruncate (x * 32768)) / 32768 - x\<bar> < 1 / 32768)"
proof -
  have eq: "real_of_int (sint (toInt16 (x * 32768))) / 32768 =
      real_of_int (jsTruncate (x * 32768)) / 32768" if "x \<in> set samples" for x
    using assms that sample_round_trip(1) by blast
  have "map (\<lambda>w. real_of_int (sint w) / 32768) (int16LE (floatToPcm16 samples)) =
      map (\<lambda>x. real_of_int (sint (toInt16 (x * 32768))) / 32768) samples"
    by (simp only: int16LE_floatToPcm16 map_map o_def)
  also have "\<dots> = map (\<lambda>x. real_of_int (jsTruncate (x * 32768)) / 32768) samples"
    by (rule map_cong [OF refl]) (rule eq)
  finally have m: "map (\<lambda>w. real_of_int (sint w) / 32768) (int16LE (floatToPcm16 samples)) =
      map (\<lambda>x. real_of_int (jsTruncate (x * 32768)) / 32768) samples" .
  have a: "pcm16ToFloat (floatToPcm16 samples) sampleRate 1 =
      Inr \<lparr>buf_sampleRate = sampleRate, buf_channelCount = 1,
           buf_samples = map (\<lambda>x. real_of_int (jsTruncate (x * 32768)) / 32768) samples\<rparr>"
    unfolding pcm16ToFloat_def m by (simp add: length_floatToPcm16)
  have b: "\<forall>x \<in> set samples. \<bar>real_of_int (jsTruncate (x * 32768)) / 32768 - x\<bar> < 1 / 32768"
    using assms sample_round_trip(2) by blast
  show ?thesis using a b by blast
qed

theorem pcm16_round_trip_witness:
  "- 1 \<le> (- 1 :: real) \<and> (- 1 :: real) < 1 \<and> - 1 \<le> (1 / 3 :: real) \<and> (1 / 3 :: real) < 1
   \<and> pcm16ToFloat (floatToPcm16 [- 1, 1 / 3]) 16000 1 =
       Inr \<lparr>buf_sampleRate = 16000, buf_channelCount = 1, buf_samples = [- 1, 5461 / 16384]\<rparr>
   \<and> \<bar>(5461 / 16384 :: real) - 1 / 3\<bar> < 1 / 32768"
proof -
  have h: "\<forall>x \<in> set [- 1, 1 / 3 :: real]. - 1 \<le> x \<and> x < 1" by simp
  have e: "jsTruncate (- 1 * 32768) = - 32768 \<and> jsTruncate (1 / 3 * 32768) = 10922"
    by (simp add: jsTruncate_def)
  show ?thesis
    using h e pcm16_round_trip [OF h, of 16000]
    by simp
qed

end
